theory Spec2Isabelle
  imports Main "HOL-Library.AList"
begin

section \<open>JavaScript values and objects\<close>

text \<open>
  The adapter of \<^verbatim>\<open>src/index.js\<close> builds plain JavaScript objects and hands them to
  the MongoDB driver. An object is kept as the list of the properties that a read or a
  \<^verbatim>\<open>for-in\<close> loop sees: its own in insertion order, then those it inherits from a
  prototype that was assigned to it. A date is its time value, the milliseconds since
  the epoch, or the invalid date, whose time value is \<^verbatim>\<open>NaN\<close>. An \<^verbatim>\<open>ObjectId\<close> is
  kept opaque.
\<close>

datatype jsval =
    Undefined
  | Null
  | Bool bool
  | Num int
  | Str string
  | Date int
  | InvalidDate
  | ObjectId nat
  | Obj "(string \<times> jsval) list"

type_synonym doc = "(string \<times> jsval) list"

text \<open>
  \<^verbatim>\<open>obj[key] = v\<close> on a plain object. The key \<^verbatim>\<open>__proto__\<close> is the accessor
  inherited from \<^verbatim>\<open>Object.prototype\<close>: assigning to it never creates an own property.
  A primitive value is ignored; an object value becomes the prototype, so that its
  properties are inherited, behind the object's own; \<^verbatim>\<open>null\<close> and a date leave
  nothing to inherit.
\<close>

definition set_prop :: "doc \<Rightarrow> string \<Rightarrow> jsval \<Rightarrow> doc" where
  "set_prop obj key v =
     (if key = ''__proto__''
      then (case v of
              Obj proto \<Rightarrow> obj @ filter (\<lambda>p. map_of obj (fst p) = None) proto
            | _ \<Rightarrow> obj)
      else AList.update key v obj)"

text \<open>\<^verbatim>\<open>obj[key]\<close>: a missing property reads as \<^verbatim>\<open>undefined\<close>.\<close>

definition get_prop :: "doc \<Rightarrow> string \<Rightarrow> jsval" where
  "get_prop obj key = (case map_of obj key of None \<Rightarrow> Undefined | Some v \<Rightarrow> v)"

definition has_prop :: "doc \<Rightarrow> string \<Rightarrow> bool" where
  "has_prop obj key = (map_of obj key \<noteq> None)"

section \<open>Errors and what a caller observes\<close>

text \<open>
  \<^verbatim>\<open>Error msg\<close> is \<^verbatim>\<open>new Error(msg)\<close>; \<^verbatim>\<open>MongoError code\<close> is the driver's
  write error (code 11000: duplicate key).
\<close>

datatype error = Error string | MongoError nat

text \<open>
  Every operation ends either by calling \<^verbatim>\<open>done(err, value)\<close> (with \<^verbatim>\<open>err\<close> being
  \<^verbatim>\<open>null\<close> on success), or by an exception thrown inside the driver's callback, in
  which case \<^verbatim>\<open>done\<close> is never called.
\<close>

datatype reply = Callback "error option" jsval | Uncaught string

section \<open>The document store\<close>

text \<open>
  Modelled from the spec: the MongoDB driver is the external collaborator of section 6
  (\<^verbatim>\<open>createIndex\<close>, \<^verbatim>\<open>findOne\<close>, \<^verbatim>\<open>save\<close>, \<^verbatim>\<open>remove\<close>); its code is not part of the
  repository. A collection is the list of its documents in natural order together with
  the fields that carry a unique single-field index.
\<close>

record collection =
  documents :: "doc list"
  unique_keys :: "string list"

text \<open>
  The acknowledgement of a write: \<^verbatim>\<open>result.ops\<close> (the inserted documents) and
  \<^verbatim>\<open>result.result.n\<close> (the number of documents written or removed).
\<close>

record write_result =
  ops :: "doc list"
  result_n :: nat

text \<open>
  The arguments the driver passes to a write callback: \<^verbatim>\<open>(err, result)\<close>, where
  \<^verbatim>\<open>result\<close> is \<^verbatim>\<open>null\<close> (here \<open>None\<close>) when the write failed.
\<close>

type_synonym write_args = "error option \<times> write_result option"

text \<open>
  How the store compares a value: \<^verbatim>\<open>undefined\<close> counts as \<^verbatim>\<open>null\<close>, and the
  invalid date is written as the epoch.
\<close>

definition bson_val :: "jsval \<Rightarrow> jsval" where
  "bson_val v = (if v = Undefined then Null else if v = InvalidDate then Date 0 else v)"

text \<open>The value of a field of a stored document; a missing field compares as \<^verbatim>\<open>null\<close>.\<close>

definition field :: "doc \<Rightarrow> string \<Rightarrow> jsval" where
  "field d key = (case map_of d key of None \<Rightarrow> Null | Some v \<Rightarrow> bson_val v)"

text \<open>An equality filter \<^verbatim>\<open>{k1: v1, ...}\<close>; the empty filter matches every document.\<close>

definition matches :: "doc \<Rightarrow> doc \<Rightarrow> bool" where
  "matches qry d = list_all (\<lambda>(key, v). field d key = bson_val v) qry"

text \<open>\<^verbatim>\<open>doc._id != null\<close>: neither \<^verbatim>\<open>null\<close> nor \<^verbatim>\<open>undefined\<close>.\<close>

definition has_id :: "doc \<Rightarrow> bool" where
  "has_id d = (get_prop d ''_id'' \<noteq> Undefined \<and> get_prop d ''_id'' \<noteq> Null)"

fun oid_num :: "jsval \<Rightarrow> nat" where
  "oid_num (ObjectId k) = k"
| "oid_num _ = 0"

text \<open>A primary key that no document of the collection carries.\<close>

definition createPk :: "collection \<Rightarrow> jsval" where
  "createPk c = ObjectId (Suc (fold max (map (\<lambda>d. oid_num (get_prop d ''_id'')) (documents c)) 0))"

text \<open>A unique index rejects a document whose key value another document already has.\<close>

definition duplicate_key :: "string list \<Rightarrow> doc list \<Rightarrow> doc \<Rightarrow> bool" where
  "duplicate_key keys others d =
     list_ex (\<lambda>key. list_ex (\<lambda>d'. field d' key = field d key) others) keys"

text \<open>
  Modelled from the spec: the driver's index operations are not in the repository.
  \<^verbatim>\<open>createIndex({key: 1}, {unique: true})\<close> builds the index unless the collection
  already holds two documents with the same key value; the adapter passes no callback,
  so a failed build goes unnoticed. \<^verbatim>\<open>dropIndex({key: 1})\<close> removes the index.
\<close>

definition createIndex :: "string \<Rightarrow> collection \<Rightarrow> collection" where
  "createIndex key c =
     (if distinct (map (\<lambda>d. field d key) (documents c))
      then c\<lparr>unique_keys := List.insert key (unique_keys c)\<rparr>
      else c)"

definition dropIndex :: "string \<Rightarrow> collection \<Rightarrow> collection" where
  "dropIndex key c = c\<lparr>unique_keys := removeAll key (unique_keys c)\<rparr>"

fun replace_first :: "(doc \<Rightarrow> bool) \<Rightarrow> doc \<Rightarrow> doc list \<Rightarrow> doc list" where
  "replace_first p new [] = [new]"
| "replace_first p new (d # ds) = (if p d then new # ds else d # replace_first p new ds)"

fun remove_first :: "(doc \<Rightarrow> bool) \<Rightarrow> doc list \<Rightarrow> doc list" where
  "remove_first p [] = []"
| "remove_first p (d # ds) = (if p d then ds else d # remove_first p ds)"

text \<open>
  Modelled from the spec: the driver's \<^verbatim>\<open>save\<close> is not in the repository.
  \<^verbatim>\<open>collection.save(doc, callback)\<close>: a document with an \<^verbatim>\<open>_id\<close> replaces the stored
  document of that \<^verbatim>\<open>_id\<close>, or is inserted when there is none (an update with
  \<^verbatim>\<open>upsert: true\<close>). A document without \<^verbatim>\<open>_id\<close> is given a fresh one (the caller's
  object is changed) and inserted; the acknowledgement then lists it in \<^verbatim>\<open>ops\<close>.
  The result is the callback's arguments, the caller's object after the call, and the
  collection after the call.
\<close>

definition coll_save :: "doc \<Rightarrow> collection \<Rightarrow> write_args \<times> doc \<times> collection" where
  "coll_save d c =
     (if has_id d then
        (let sel = matches [(''_id'', get_prop d ''_id'')] in
         if duplicate_key (unique_keys c) (remove_first sel (documents c)) d
         then ((Some (MongoError 11000), None), d, c)
         else ((None, Some \<lparr>ops = [], result_n = 1\<rparr>), d,
               c\<lparr>documents := replace_first sel d (documents c)\<rparr>))
      else
        (let d' = set_prop d ''_id'' (createPk c) in
         if duplicate_key (unique_keys c) (documents c) d'
         then ((Some (MongoError 11000), None), d', c)
         else ((None, Some \<lparr>ops = [d'], result_n = 1\<rparr>), d',
               c\<lparr>documents := documents c @ [d']\<rparr>)))"

text \<open>
  Modelled from the spec: the driver's \<^verbatim>\<open>findOne\<close> is not in the repository.
  \<^verbatim>\<open>collection.findOne(filter, done)\<close> calls \<^verbatim>\<open>done(null, doc)\<close> with the first
  matching document, or \<^verbatim>\<open>done(null, null)\<close> when none matches.
\<close>

definition coll_findOne :: "doc \<Rightarrow> collection \<Rightarrow> reply" where
  "coll_findOne qry c =
     (case filter (matches qry) (documents c) of
        [] \<Rightarrow> Callback None Null
      | d # _ \<Rightarrow> Callback None (Obj d))"

text \<open>
  Modelled from the spec: the driver's \<^verbatim>\<open>remove\<close> is not in the repository.
  \<^verbatim>\<open>collection.remove(filter, callback)\<close> deletes every matching document and
  reports how many there were.
\<close>

definition coll_remove :: "doc \<Rightarrow> collection \<Rightarrow> write_args \<times> collection" where
  "coll_remove qry c =
     ((None, Some \<lparr>ops = [], result_n = length (filter (matches qry) (documents c))\<rparr>),
      c\<lparr>documents := filter (\<lambda>d. \<not> matches qry d) (documents c)\<rparr>)"

section \<open>Configuration and environment\<close>

text \<open>
  The options of the configuration that the adapter reads: \<^verbatim>\<open>config.uniqueName\<close>,
  \<^verbatim>\<open>config.useExtra\<close> and \<^verbatim>\<open>config.signup.tokenExpiration\<close>.
\<close>

record config =
  uniqueName :: bool
  useExtra :: bool
  tokenExpiration :: string

text \<open>
  What one call of \<^verbatim>\<open>save\<close> takes from outside the program: the wall clock, read
  twice (\<open>moment_now\<close> is the first reading, \<open>moment_delay\<close> the milliseconds by
  which the second reading is later; it is negative when the clock was set back in
  between), the token returned by \<^verbatim>\<open>uuid.v4()\<close>, the arguments
  \<^verbatim>\<open>(err, salt, hash)\<close> with which \<^verbatim>\<open>pwd.hash\<close> calls back for a password, and
  the arguments \<^verbatim>\<open>(err, hash)\<close> with which \<^verbatim>\<open>bcrypt.hash\<close> does (the older
  variant of the adapter uses the latter).
\<close>

record env =
  moment_now :: int
  moment_delay :: int
  uuid_v4 :: string
  pwd_hash :: "string \<Rightarrow> error option \<times> jsval \<times> jsval"
  bcrypt_hash :: "string \<Rightarrow> error option \<times> jsval"

subsection \<open>The duration parser\<close>

text \<open>
  Modelled from the spec: \<^verbatim>\<open>ms\<close>, the duration parser of section 4.2 (``parsed from
  a human-readable duration configuration value (e.g., "24h", "7d") into an absolute
  duration''), is a library that is not in the repository. The model reads an optional
  sign, a whole number, optional blanks and an optional unit in either case, and gives
  milliseconds; any other string is \<open>None\<close>, the library's \<^verbatim>\<open>undefined\<close>.
  Fractional amounts are outside the model.
\<close>

definition is_digit :: "char \<Rightarrow> bool" where
  "is_digit ch = (ch \<in> set ''0123456789'')"

definition digit_val :: "char \<Rightarrow> int" where
  "digit_val ch =
     (case map_of (zip ''0123456789'' [0, 1, 2, 3, 4, 5, 6, 7, 8, 9]) ch of
        None \<Rightarrow> 0
      | Some k \<Rightarrow> k)"

definition number_val :: "string \<Rightarrow> int" where
  "number_val ds = foldl (\<lambda>acc ch. 10 * acc + digit_val ch) 0 ds"

definition to_lower :: "char \<Rightarrow> char" where
  "to_lower ch =
     (case map_of (zip ''ABCDEFGHIJKLMNOPQRSTUVWXYZ'' ''abcdefghijklmnopqrstuvwxyz'') ch of
        None \<Rightarrow> ch
      | Some l \<Rightarrow> l)"

definition unit_ms :: "string \<Rightarrow> int option" where
  "unit_ms u =
     (if u \<in> set [''years'', ''year'', ''yrs'', ''yr'', ''y''] then Some 31557600000
      else if u \<in> set [''days'', ''day'', ''d''] then Some 86400000
      else if u \<in> set [''hours'', ''hour'', ''hrs'', ''hr'', ''h''] then Some 3600000
      else if u \<in> set [''minutes'', ''minute'', ''mins'', ''min'', ''m''] then Some 60000
      else if u \<in> set [''seconds'', ''second'', ''secs'', ''sec'', ''s''] then Some 1000
      else if u \<in> set [''milliseconds'', ''millisecond'', ''msecs'', ''msec'', ''ms'', '''']
        then Some 1
      else None)"

definition ms :: "string \<Rightarrow> int option" where
  "ms str =
     (let neg = (str \<noteq> [] \<and> hd str = CHR ''-'');
          body = (if neg then tl str else str);
          ds = takeWhile is_digit body;
          u = map to_lower (dropWhile (\<lambda>ch. ch = CHR '' '') (dropWhile is_digit body))
      in if ds = [] then None
         else case unit_ms u of
                None \<Rightarrow> None
              | Some f \<Rightarrow> Some ((if neg then - 1 else 1) * number_val ds * f))"

text \<open>
  Modelled from the spec: \<^verbatim>\<open>expiryFrom(now, ttl)\<close> of section 4.2 is \<^verbatim>\<open>now + ttl\<close>;
  the library behind it is not in the repository. \<^verbatim>\<open>moment().add(timespan, 'ms')\<close>
  adds the milliseconds to the clock reading; an \<^verbatim>\<open>undefined\<close> amount adds nothing.
\<close>

definition moment_add :: "int \<Rightarrow> int option \<Rightarrow> int" where
  "moment_add t timespan = (case timespan of None \<Rightarrow> t | Some d \<Rightarrow> t + d)"

text \<open>
  A JavaScript date holds a time value of at most 8.64e15 milliseconds on either side of
  the epoch; \<^verbatim>\<open>toDate()\<close> of a moment that was moved out of this range is the
  invalid date. A reading of the clock is always in the range.
\<close>

definition valid_time :: "int \<Rightarrow> bool" where
  "valid_time t = (\<bar>t\<bar> \<le> 8640000000000000)"

definition toDate :: "int \<Rightarrow> jsval" where
  "toDate t = (if valid_time t then Date t else InvalidDate)"

section \<open>The adapter (\<^verbatim>\<open>src/index.js\<close>)\<close>

text \<open>
  The constructor's connect callback: a unique index on \<^verbatim>\<open>name\<close> when
  \<^verbatim>\<open>config.uniqueName\<close> is set (dropped otherwise), and always one on \<^verbatim>\<open>email\<close>.
\<close>

definition Adapter :: "config \<Rightarrow> collection \<Rightarrow> collection" where
  "Adapter cfg database =
     createIndex ''email''
       (if uniqueName cfg then createIndex ''name'' database
        else dropIndex ''name'' database)"

text \<open>
  \<^verbatim>\<open>Adapter.prototype.save\<close>. The callback given to the driver evaluates
  \<^verbatim>\<open>result.ops[0]\<close> before anything else, so a \<^verbatim>\<open>null\<close> result throws a
  \<^verbatim>\<open>TypeError\<close> there and \<^verbatim>\<open>done\<close> is not reached.
\<close>

definition adapter_save ::
  "config \<Rightarrow> env \<Rightarrow> string \<Rightarrow> string \<Rightarrow> string \<Rightarrow> jsval \<Rightarrow> collection \<Rightarrow> reply \<times> collection"
where
  "adapter_save cfg e name email pw extra c =
     (let now = moment_now e;
          timespan = ms (tokenExpiration cfg);
          future = moment_add (moment_now e + moment_delay e) timespan;
          user = [(''name'', Str name),
                  (''email'', Str email),
                  (''signupToken'', Str (uuid_v4 e)),
                  (''signupTimestamp'', Date now),
                  (''signupTokenExpires'', toDate future),
                  (''failedLoginAttempts'', Num 0)];
          user = (if useExtra cfg then set_prop user ''extra'' extra else user)
      in case pwd_hash e pw of
           (Some err, _, _) \<Rightarrow> (Callback (Some err) Undefined, c)
         | (None, salt, hash) \<Rightarrow>
             (let user = set_prop user ''salt'' salt;
                  user = set_prop user ''derived_key'' hash
              in case coll_save user c of
                   ((saveErr, None), _, c') \<Rightarrow>
                     (Uncaught ''TypeError: Cannot read property ops of null'', c')
                 | ((saveErr, Some result), _, c') \<Rightarrow>
                     (Callback saveErr (case ops result of [] \<Rightarrow> Undefined | d # _ \<Rightarrow> Obj d),
                      c')))"

text \<open>
  \<^verbatim>\<open>Adapter.prototype.find\<close>: the filter is an empty object to which the property
  \<^verbatim>\<open>match\<close> is assigned; the driver calls \<^verbatim>\<open>done\<close> itself. The line written to
  the console is not part of the model.
\<close>

definition adapter_find :: "collection \<Rightarrow> string \<Rightarrow> jsval \<Rightarrow> reply" where
  "adapter_find c match query = (let qry = set_prop [] match query in coll_findOne qry c)"

text \<open>
  \<^verbatim>\<open>Adapter.prototype.update\<close>: save; on an error pass it on, otherwise read the
  record again by the \<^verbatim>\<open>_id\<close> of the caller's object.
\<close>

definition adapter_update :: "collection \<Rightarrow> doc \<Rightarrow> reply \<times> collection" where
  "adapter_update c user =
     (case coll_save user c of
        ((Some err, _), _, c') \<Rightarrow> (Callback (Some err) Undefined, c')
      | ((None, _), user', c') \<Rightarrow> (coll_findOne [(''_id'', get_prop user' ''_id'')] c', c'))"

text \<open>
  \<^verbatim>\<open>Adapter.prototype.remove\<close>: an error is passed on; \<^verbatim>\<open>result.result.n === 0\<close>
  gives the error that names the user; otherwise \<^verbatim>\<open>done(null, true)\<close>.
\<close>

definition adapter_remove :: "collection \<Rightarrow> string \<Rightarrow> reply \<times> collection" where
  "adapter_remove c name =
     (case coll_remove [(''name'', Str name)] c of
        ((Some err, _), c') \<Rightarrow> (Callback (Some err) Undefined, c')
      | ((None, None), c') \<Rightarrow>
          (Uncaught ''TypeError: Cannot read property result of null'', c')
      | ((None, Some result), c') \<Rightarrow>
          (if result_n result = 0
           then (Callback (Some (Error (''lockit - Cannot find user \"'' @ name @ ''\"''))) Undefined, c')
           else (Callback None (Bool True), c')))"

section \<open>The older adapter (\<^verbatim>\<open>src/unnamed/part_000\<close>)\<close>

text \<open>
  The second source file is an earlier variant of the same four operations: the handle
  is called \<^verbatim>\<open>username\<close>, the credential is one \<^verbatim>\<open>bcrypt\<close> hash, there is no
  \<^verbatim>\<open>extra\<close> payload, the module builds no index, and the driver's callbacks receive
  the saved document and the number of removed documents directly.
\<close>

definition legacy_save ::
  "config \<Rightarrow> env \<Rightarrow> string \<Rightarrow> string \<Rightarrow> string \<Rightarrow> collection \<Rightarrow> reply \<times> collection"
where
  "legacy_save cfg e name email pw c =
     (let now = moment_now e;
          timespan = ms (tokenExpiration cfg);
          future = moment_add (moment_now e + moment_delay e) timespan;
          user = [(''username'', Str name),
                  (''email'', Str email),
                  (''signupToken'', Str (uuid_v4 e)),
                  (''signupTimestamp'', Date now),
                  (''signupTokenExpires'', toDate future),
                  (''failedLoginAttempts'', Num 0)]
      in case bcrypt_hash e pw of
           (Some err, _) \<Rightarrow> (Callback (Some err) Undefined, c)
         | (None, hash) \<Rightarrow>
             (let user = set_prop user ''hash'' hash
              in case coll_save user c of
                   ((err, None), _, c') \<Rightarrow> (Callback err Null, c')
                 | ((err, Some result), _, c') \<Rightarrow>
                     (Callback err (case ops result of [] \<Rightarrow> Undefined | d # _ \<Rightarrow> Obj d), c')))"

text \<open>\<^verbatim>\<open>find(qry).nextObject(done)\<close>: the first document of the cursor, or \<^verbatim>\<open>null\<close>.\<close>

definition legacy_find :: "collection \<Rightarrow> string \<Rightarrow> jsval \<Rightarrow> reply" where
  "legacy_find c match query = (let qry = set_prop [] match query in coll_findOne qry c)"

text \<open>The write error is only logged; the record is read again in either case.\<close>

definition legacy_update :: "collection \<Rightarrow> doc \<Rightarrow> reply \<times> collection" where
  "legacy_update c user =
     (case coll_save user c of
        (_, user', c') \<Rightarrow> (coll_findOne [(''_id'', get_prop user' ''_id'')] c', c'))"

definition legacy_remove :: "collection \<Rightarrow> string \<Rightarrow> reply \<times> collection" where
  "legacy_remove c username =
     (case coll_remove [(''username'', Str username)] c of
        ((Some err, _), c') \<Rightarrow> (Callback (Some err) Undefined, c')
      | ((None, numberOfRemovedDocs), c') \<Rightarrow>
          (if map_option result_n numberOfRemovedDocs = Some 0
           then (Callback (Some (Error (''lockit - Cannot find user \"'' @ username @ ''\"'')))
                   Undefined, c')
           else (Callback None (Bool True), c')))"

section \<open>The record invariants of the data model\<close>

text \<open>
  The two numeric invariants the spec states for a user record (section 3):
  \<^verbatim>\<open>signupTokenExpires > signupTimestamp\<close> and \<^verbatim>\<open>failedLoginAttempts >= 0\<close>.
\<close>

definition record_invariant :: "doc \<Rightarrow> bool" where
  "record_invariant d =
     (case (get_prop d ''signupTimestamp'', get_prop d ''signupTokenExpires'',
            get_prop d ''failedLoginAttempts'') of
        (Date t, Date x, Num k) \<Rightarrow> t < x \<and> 0 \<le> k
      | _ \<Rightarrow> False)"

section \<open>Example inputs\<close>

text \<open>
  The values of the example in the documentation of \<^verbatim>\<open>Adapter.prototype.save\<close>:
  a database without documents, on which the constructor builds its indexes, a clock
  that advances by one millisecond between its two readings, and a hasher that succeeds.
\<close>

definition example_config :: config where
  "example_config = \<lparr>uniqueName = True, useExtra = False, tokenExpiration = ''1h''\<rparr>"

definition example_env :: env where
  "example_env =
     \<lparr>moment_now = 1389809307000,
      moment_delay = 1,
      uuid_v4 = ''ef32a95a-d6ee-405a-8e4b-515b235f7c54'',
      pwd_hash = (\<lambda>pw. (None, Str ''48cf9da376703199c30ba5c274580c98'',
                            Str ''502967e5a6e55091f4c2c80e7989623f051070fd'')),
      bcrypt_hash = (\<lambda>pw. (None, Str ''$2a$10$vI8aWBnW3fID.ZQ4/zo1G.q1lRps.9cGLcZEiGDMVr5yUP1KUOYTa''))\<rparr>"

definition failing_env :: env where
  "failing_env = example_env\<lparr>pwd_hash := (\<lambda>pw. (Some (Error ''entropy''), Undefined, Undefined))\<rparr>"

definition empty_db :: collection where
  "empty_db = Adapter example_config \<lparr>documents = [], unique_keys = []\<rparr>"

definition john :: doc where
  "john =
     [(''name'', Str ''john''),
      (''email'', Str ''john@email.com''),
      (''signupToken'', Str ''ef32a95a-d6ee-405a-8e4b-515b235f7c54''),
      (''signupTimestamp'', Date 1389809307000),
      (''signupTokenExpires'', Date 1389812907001),
      (''failedLoginAttempts'', Num 0),
      (''salt'', Str ''48cf9da376703199c30ba5c274580c98''),
      (''derived_key'', Str ''502967e5a6e55091f4c2c80e7989623f051070fd''),
      (''_id'', ObjectId 1)]"

text \<open>The database after \<^verbatim>\<open>save('john', 'john@email.com', 'secret', ...)\<close>.\<close>

definition john_db :: collection where
  "john_db = \<lparr>documents = [john], unique_keys = [''email'', ''name'']\<rparr>"

text \<open>A record a caller may pass to \<^verbatim>\<open>update\<close>; it was never stored.\<close>

definition stranger :: doc where
  "stranger =
     [(''_id'', ObjectId 7),
      (''name'', Str ''jane''),
      (''email'', Str ''jane@email.com''),
      (''signupTimestamp'', Date 2000),
      (''signupTokenExpires'', Date 1000),
      (''failedLoginAttempts'', Num (- 1))]"

text \<open>The stored record of \<^verbatim>\<open>john\<close> after one failed login, as a caller updates it.\<close>

definition john_later :: doc where
  "john_later = AList.update ''failedLoginAttempts'' (Num 1) john"

text \<open>A configuration with a very long TTL, and a clock that is set back by two hours
  between the two readings.\<close>

definition long_ttl_config :: config where
  "long_ttl_config = example_config\<lparr>tokenExpiration := ''300000y''\<rparr>"

definition set_back_env :: env where
  "set_back_env = example_env\<lparr>moment_delay := - 7200000\<rparr>"

text \<open>A record with an \<^verbatim>\<open>_id\<close> of its own and the email of \<^verbatim>\<open>john\<close>.\<close>

definition impostor :: doc where
  "impostor =
     [(''_id'', ObjectId 2),
      (''name'', Str ''jane''),
      (''email'', Str ''john@email.com'')]"

section \<open>Facts about objects and the store\<close>

lemma matches_single: "matches [(key, v)] = (\<lambda>d. field d key = bson_val v)"
  by (simp add: fun_eq_iff matches_def)

lemma get_prop_update:
  "get_prop (AList.update key v obj) k = (if k = key then v else get_prop obj k)"
  by (simp add: get_prop_def update_conv')

lemma field_update:
  "field (AList.update key v obj) k = (if k = key then bson_val v else field obj k)"
  by (simp add: field_def update_conv')

lemma has_prop_update:
  "has_prop (AList.update key v obj) k = (k = key \<or> has_prop obj k)"
  by (simp add: has_prop_def update_conv')

lemma field_of_id: "has_id d \<Longrightarrow> field d ''_id'' = bson_val (get_prop d ''_id'')"
  by (auto simp: has_id_def field_def get_prop_def split: option.splits)

lemma fold_max_upper: "x \<in> set xs \<Longrightarrow> x \<le> fold max xs (a::nat)"
proof (induction xs arbitrary: a)
  case Nil
  then show ?case by simp
next
  case (Cons y ys)
  have mono: "\<And>b. b \<le> fold max ys b"
  proof -
    fix b show "b \<le> fold max ys b"
    proof (induction ys arbitrary: b)
      case Nil
      then show ?case by simp
    next
      case (Cons z zs)
      have "b \<le> max z b" by simp
      also have "\<dots> \<le> fold max zs (max z b)" by (rule Cons.IH)
      finally show ?case by simp
    qed
  qed
  show ?case
  proof (cases "x = y")
    case True
    have "x \<le> max y a" using True by simp
    also have "\<dots> \<le> fold max ys (max y a)" by (rule mono)
    finally show ?thesis by simp
  next
    case False
    with Cons.prems have "x \<in> set ys" by simp
    then show ?thesis using Cons.IH by simp
  qed
qed

lemma createPk_fresh: "d \<in> set (documents c) \<Longrightarrow> get_prop d ''_id'' \<noteq> createPk c"
proof
  assume mem: "d \<in> set (documents c)" and eq: "get_prop d ''_id'' = createPk c"
  let ?ks = "map (\<lambda>d. oid_num (get_prop d ''_id'')) (documents c)"
  from mem have "oid_num (get_prop d ''_id'') \<in> set ?ks" by simp
  then have "oid_num (get_prop d ''_id'') \<le> fold max ?ks 0" by (rule fold_max_upper)
  moreover from eq have "oid_num (get_prop d ''_id'') = Suc (fold max ?ks 0)"
    by (simp add: createPk_def)
  ultimately show False by simp
qed

lemma filter_replace_first:
  "p new \<Longrightarrow> filter p (replace_first p new ds) = new # filter p (remove_first p ds)"
  by (induction ds) auto

lemma set_replace_first: "new \<in> set (replace_first p new ds)"
  by (induction ds) auto

lemma set_replace_first_subset: "set (replace_first p new ds) \<subseteq> insert new (set ds)"
  by (induction ds) auto

lemma replace_first_none: "\<not> list_ex p ds \<Longrightarrow> replace_first p new ds = ds @ [new]"
  by (induction ds) auto

lemma length_replace_first: "list_ex p ds \<Longrightarrow> length (replace_first p new ds) = length ds"
  by (induction ds) auto

lemma adapter_find_filter:
  assumes "match \<noteq> ''__proto__''"
  shows "adapter_find c match query =
           (case filter (\<lambda>d. field d match = bson_val query) (documents c) of
              [] \<Rightarrow> Callback None Null
            | d # _ \<Rightarrow> Callback None (Obj d))"
  using assms by (simp add: adapter_find_def set_prop_def coll_findOne_def matches_single)

lemma coll_findOne_mem:
  "coll_findOne qry c = Callback None (Obj u) \<Longrightarrow> u \<in> set (documents c)"
proof -
  assume a: "coll_findOne qry c = Callback None (Obj u)"
  then obtain rest where "filter (matches qry) (documents c) = u # rest"
    by (auto simp: coll_findOne_def split: list.splits)
  then have "u \<in> set (filter (matches qry) (documents c))" by simp
  then show ?thesis by simp
qed

lemma get_prop_Cons: "get_prop ((k, v) # obj) key = (if key = k then v else get_prop obj key)"
  by (simp add: get_prop_def)

lemma get_prop_Nil: "get_prop [] key = Undefined"
  by (simp add: get_prop_def)

lemma has_prop_Cons: "has_prop ((k, v) # obj) key = (key = k \<or> has_prop obj key)"
  by (auto simp: has_prop_def)

lemma has_prop_Nil: "has_prop [] key = False"
  by (simp add: has_prop_def)

lemmas prop_simps = get_prop_Cons get_prop_Nil get_prop_update has_prop_Cons has_prop_Nil
  has_prop_update

lemma adapter_save_success:
  assumes "adapter_save cfg e name email pw extra c = (Callback None r, c')"
  obtains salt hash base user where
    "pwd_hash e pw = (None, salt, hash)"
    and "base = [(''name'', Str name), (''email'', Str email),
                (''signupToken'', Str (uuid_v4 e)),
                (''signupTimestamp'', Date (moment_now e)),
                (''signupTokenExpires'',
                   toDate (moment_add (moment_now e + moment_delay e) (ms (tokenExpiration cfg)))),
                (''failedLoginAttempts'', Num 0)]"
    and "user = AList.update ''_id'' (createPk c)
                  (AList.update ''derived_key'' hash
                    (AList.update ''salt'' salt
                      (if useExtra cfg then AList.update ''extra'' extra base else base)))"
    and "r = Obj user"
    and "c' = c\<lparr>documents := documents c @ [user]\<rparr>"
proof -
  obtain err salt hash where ph: "pwd_hash e pw = (err, salt, hash)"
    by (cases "pwd_hash e pw") auto
  have noerr: "err = None"
    using assms ph by (cases err) (simp_all add: adapter_save_def Let_def)
  define base where "base = [(''name'', Str name), (''email'', Str email),
                (''signupToken'', Str (uuid_v4 e)),
                (''signupTimestamp'', Date (moment_now e)),
                (''signupTokenExpires'',
                   toDate (moment_add (moment_now e + moment_delay e) (ms (tokenExpiration cfg)))),
                (''failedLoginAttempts'', Num 0)]"
  define pre where "pre = AList.update ''derived_key'' hash
                    (AList.update ''salt'' salt
                      (if useExtra cfg then AList.update ''extra'' extra base else base))"
  define user where "user = AList.update ''_id'' (createPk c) pre"
  have noid: "\<not> has_id pre"
    by (simp add: pre_def base_def has_id_def prop_simps)
  have sv: "adapter_save cfg e name email pw extra c =
          (case coll_save pre c of
             ((saveErr, None), _, c') \<Rightarrow>
               (Uncaught ''TypeError: Cannot read property ops of null'', c')
           | ((saveErr, Some result), _, c') \<Rightarrow>
               (Callback saveErr (case ops result of [] \<Rightarrow> Undefined | d # _ \<Rightarrow> Obj d), c'))"
    using ph noerr by (simp add: adapter_save_def Let_def set_prop_def pre_def base_def)
  have cs: "coll_save pre c =
          (if duplicate_key (unique_keys c) (documents c) user
           then ((Some (MongoError 11000), None), user, c)
           else ((None, Some \<lparr>ops = [user], result_n = 1\<rparr>), user, c\<lparr>documents := documents c @ [user]\<rparr>))"
    using noid by (simp add: coll_save_def Let_def set_prop_def user_def)
  have nd: "\<not> duplicate_key (unique_keys c) (documents c) user"
    using assms sv cs by (auto split: if_splits)
  have "r = Obj user" and "c' = c\<lparr>documents := documents c @ [user]\<rparr>"
    using assms sv cs nd by simp_all
  with that ph noerr base_def user_def pre_def show thesis by blast
qed

lemma field_Cons: "field ((k, v) # obj) key = (if key = k then bson_val v else field obj key)"
  by (simp add: field_def)

lemma field_Nil: "field [] key = Null"
  by (simp add: field_def)

section \<open>What create does\<close>

text \<open>
  The two outcomes of \<^verbatim>\<open>save\<close> once the hasher has succeeded: the composed record
  gets a fresh \<^verbatim>\<open>_id\<close> and is appended, or a unique index rejects it, the driver's
  callback receives \<^verbatim>\<open>(err, null)\<close>, and reading \<^verbatim>\<open>result.ops\<close> throws.
\<close>

lemma adapter_save_outcome:
  assumes "pwd_hash e pw = (None, salt, hash)"
    and "base = [(''name'', Str name), (''email'', Str email),
                (''signupToken'', Str (uuid_v4 e)),
                (''signupTimestamp'', Date (moment_now e)),
                (''signupTokenExpires'',
                   toDate (moment_add (moment_now e + moment_delay e) (ms (tokenExpiration cfg)))),
                (''failedLoginAttempts'', Num 0)]"
    and "user = AList.update ''_id'' (createPk c)
                  (AList.update ''derived_key'' hash
                    (AList.update ''salt'' salt
                      (if useExtra cfg then AList.update ''extra'' extra base else base)))"
  shows "adapter_save cfg e name email pw extra c =
           (if duplicate_key (unique_keys c) (documents c) user
            then (Uncaught ''TypeError: Cannot read property ops of null'', c)
            else (Callback None (Obj user), c\<lparr>documents := documents c @ [user]\<rparr>))"
proof -
  define pre where "pre = AList.update ''derived_key'' hash
                    (AList.update ''salt'' salt
                      (if useExtra cfg then AList.update ''extra'' extra base else base))"
  have user: "user = AList.update ''_id'' (createPk c) pre"
    by (simp add: assms(3) pre_def)
  have noid: "\<not> has_id pre"
    by (simp add: pre_def assms(2) has_id_def prop_simps)
  have sv: "adapter_save cfg e name email pw extra c =
          (case coll_save pre c of
             ((saveErr, None), _, c') \<Rightarrow>
               (Uncaught ''TypeError: Cannot read property ops of null'', c')
           | ((saveErr, Some result), _, c') \<Rightarrow>
               (Callback saveErr (case ops result of [] \<Rightarrow> Undefined | d # _ \<Rightarrow> Obj d), c'))"
    using assms(1) by (simp add: adapter_save_def Let_def set_prop_def pre_def assms(2))
  have cs: "coll_save pre c =
          (if duplicate_key (unique_keys c) (documents c) user
           then ((Some (MongoError 11000), None), user, c)
           else ((None, Some \<lparr>ops = [user], result_n = 1\<rparr>), user, c\<lparr>documents := documents c @ [user]\<rparr>))"
    using noid by (simp add: coll_save_def Let_def set_prop_def user)
  show ?thesis unfolding sv cs by simp
qed

lemma adapter_save_duplicate_email:
  assumes "pwd_hash e pw = (None, salt, hash)"
    and "''email'' \<in> set (unique_keys c)"
    and "d \<in> set (documents c)" and "field d ''email'' = Str email"
  shows "adapter_save cfg e name email pw extra c =
           (Uncaught ''TypeError: Cannot read property ops of null'', c)"
proof -
  define base where "base = [(''name'', Str name), (''email'', Str email),
                (''signupToken'', Str (uuid_v4 e)),
                (''signupTimestamp'', Date (moment_now e)),
                (''signupTokenExpires'',
                   toDate (moment_add (moment_now e + moment_delay e) (ms (tokenExpiration cfg)))),
                (''failedLoginAttempts'', Num 0)]"
  define user where "user = AList.update ''_id'' (createPk c)
                  (AList.update ''derived_key'' hash
                    (AList.update ''salt'' salt
                      (if useExtra cfg then AList.update ''extra'' extra base else base)))"
  have "field user ''email'' = Str email"
    by (simp add: user_def base_def field_update) (simp add: field_def bson_val_def)
  with assms(3,4) have "\<exists>d'\<in>set (documents c). field d' ''email'' = field user ''email''"
    by auto
  with assms(2) have "duplicate_key (unique_keys c) (documents c) user"
    unfolding duplicate_key_def list_ex_iff by blast
  with adapter_save_outcome [OF assms(1) base_def user_def] show ?thesis by simp
qed

lemma save_expiry_difference:
  assumes "adapter_save cfg e name email pw extra c = (Callback None (Obj user), c')"
    and "ms (tokenExpiration cfg) = Some ttl"
  shows "get_prop user ''signupTimestamp'' = Date (moment_now e)"
    and "get_prop user ''signupTokenExpires'' = toDate (moment_now e + moment_delay e + ttl)"
    and "get_prop user ''failedLoginAttempts'' = Num 0"
proof -
  from assms(1) obtain salt hash base u where
    base: "base = [(''name'', Str name), (''email'', Str email),
                (''signupToken'', Str (uuid_v4 e)),
                (''signupTimestamp'', Date (moment_now e)),
                (''signupTokenExpires'',
                   toDate (moment_add (moment_now e + moment_delay e) (ms (tokenExpiration cfg)))),
                (''failedLoginAttempts'', Num 0)]"
    and u: "u = AList.update ''_id'' (createPk c)
                  (AList.update ''derived_key'' hash
                    (AList.update ''salt'' salt
                      (if useExtra cfg then AList.update ''extra'' extra base else base)))"
    and r: "Obj user = Obj u"
    by (rule adapter_save_success)
  from r have uu: "user = u" by simp
  show "get_prop user ''signupTimestamp'' = Date (moment_now e)"
    and "get_prop user ''signupTokenExpires'' = toDate (moment_now e + moment_delay e + ttl)"
    and "get_prop user ''failedLoginAttempts'' = Num 0"
    by (simp_all add: uu u base prop_simps assms(2) moment_add_def)
qed

lemma record_invariant_created:
  assumes "adapter_save cfg e name email pw extra c = (Callback None (Obj user), c')"
    and "ms (tokenExpiration cfg) = Some ttl"
  shows "record_invariant user \<longleftrightarrow>
           0 < moment_delay e + ttl \<and> valid_time (moment_now e + moment_delay e + ttl)"
  using save_expiry_difference [OF assms]
  by (auto simp: record_invariant_def toDate_def)

lemma record_invariant_set_id:
  "record_invariant (set_prop d ''_id'' v) = record_invariant d"
  by (simp add: record_invariant_def set_prop_def get_prop_update)

lemma adapter_update_documents:
  "set (documents (snd (adapter_update c user)))
     \<subseteq> insert user (insert (set_prop user ''_id'' (createPk c)) (set (documents c)))"
proof -
  have "set (documents (snd (snd (coll_save user c))))
          \<subseteq> insert user (insert (set_prop user ''_id'' (createPk c)) (set (documents c)))"
    using set_replace_first_subset [of "matches [(''_id'', get_prop user ''_id'')]" user "documents c"]
    by (auto simp: coll_save_def Let_def)
  moreover have "snd (adapter_update c user) = snd (snd (coll_save user c))"
    by (cases "coll_save user c") (auto simp: adapter_update_def split: option.splits)
  ultimately show ?thesis by simp
qed

lemma adapter_update_reply_mem:
  assumes "fst (adapter_update c user) = Callback None (Obj u)"
  shows "u \<in> set (documents (snd (adapter_update c user)))"
proof -
  obtain err res user' c' where cs: "coll_save user c = ((err, res), user', c')"
    by (cases "coll_save user c") auto
  show ?thesis
  proof (cases err)
    case (Some x)
    with cs assms show ?thesis by (simp add: adapter_update_def)
  next
    case None
    with cs assms have "coll_findOne [(''_id'', get_prop user' ''_id'')] c' = Callback None (Obj u)"
      by (simp add: adapter_update_def)
    then have "u \<in> set (documents c')" by (rule coll_findOne_mem)
    with None cs show ?thesis by (simp add: adapter_update_def)
  qed
qed

lemma save_then_find_by_name:
  assumes "adapter_save cfg e name email pw extra c = (Callback None (Obj user), c')"
    and "list_all (\<lambda>d. field d ''name'' \<noteq> Str name) (documents c)"
    and "pwd_hash e pw = (err, salt, hash)"
  shows "adapter_find c' ''name'' (Str name) = Callback None (Obj user)"
    and "get_prop user ''salt'' = salt"
    and "get_prop user ''derived_key'' = hash"
proof -
  from assms(1) obtain salt' hash' base u where
    ph: "pwd_hash e pw = (None, salt', hash')"
    and base: "base = [(''name'', Str name), (''email'', Str email),
                (''signupToken'', Str (uuid_v4 e)),
                (''signupTimestamp'', Date (moment_now e)),
                (''signupTokenExpires'',
                   toDate (moment_add (moment_now e + moment_delay e) (ms (tokenExpiration cfg)))),
                (''failedLoginAttempts'', Num 0)]"
    and u: "u = AList.update ''_id'' (createPk c)
                  (AList.update ''derived_key'' hash'
                    (AList.update ''salt'' salt'
                      (if useExtra cfg then AList.update ''extra'' extra base else base)))"
    and r: "Obj user = Obj u"
    and cu: "c' = c\<lparr>documents := documents c @ [u]\<rparr>"
    by (rule adapter_save_success)
  from r have uu: "user = u" by simp
  from cu uu have c': "c' = c\<lparr>documents := documents c @ [user]\<rparr>" by simp
  from ph assms(3) have sh: "salt' = salt" "hash' = hash" by simp_all
  have nm: "field user ''name'' = Str name"
    by (simp add: uu u base field_update field_Cons bson_val_def)
  from assms(2) have "filter (\<lambda>d. field d ''name'' = Str name) (documents c) = []"
    by (simp add: list_all_iff filter_empty_conv)
  with nm have "filter (\<lambda>d. field d ''name'' = bson_val (Str name)) (documents c') = [user]"
    by (simp add: c' bson_val_def)
  then show "adapter_find c' ''name'' (Str name) = Callback None (Obj user)"
    by (simp add: adapter_find_filter)
  show "get_prop user ''salt'' = salt" and "get_prop user ''derived_key'' = hash"
    by (simp_all add: uu u base sh prop_simps)
qed

section \<open>The older adapter agrees\<close>

lemma legacy_find_eq: "legacy_find c match query = adapter_find c match query"
  by (simp add: legacy_find_def adapter_find_def)

lemma legacy_save_hash_error:
  "bcrypt_hash e pw = (Some err, hash) \<Longrightarrow>
     legacy_save cfg e name email pw c = (Callback (Some err) Undefined, c)"
  by (simp add: legacy_save_def Let_def)

lemma legacy_update_accepted:
  "fst (fst (coll_save user c)) = None \<Longrightarrow> legacy_update c user = adapter_update c user"
  by (cases "coll_save user c") (auto simp: legacy_update_def adapter_update_def)

lemma legacy_remove_outcome:
  "legacy_remove c username =
     (if list_ex (\<lambda>d. field d ''username'' = Str username) (documents c)
      then (Callback None (Bool True),
            c\<lparr>documents := filter (\<lambda>d. field d ''username'' \<noteq> Str username) (documents c)\<rparr>)
      else (Callback (Some (Error (''lockit - Cannot find user \"'' @ username @ ''\"''))) Undefined,
            c))"
proof (cases "list_ex (\<lambda>d. field d ''username'' = Str username) (documents c)")
  case True
  then have "filter (\<lambda>d. field d ''username'' = Str username) (documents c) \<noteq> []"
    by (auto simp: list_ex_iff filter_empty_conv)
  with True show ?thesis
    by (simp add: legacy_remove_def coll_remove_def matches_single bson_val_def)
next
  case False
  then have "\<forall>d\<in>set (documents c). field d ''username'' \<noteq> Str username"
    by (simp add: list_ex_iff)
  then have "filter (\<lambda>d. field d ''username'' = Str username) (documents c) = []"
    and "filter (\<lambda>d. field d ''username'' \<noteq> Str username) (documents c) = documents c"
    by (simp_all add: filter_empty_conv)
  with False show ?thesis
    by (simp add: legacy_remove_def coll_remove_def matches_single bson_val_def)
qed

lemma legacy_save_expiry:
  "fst (legacy_save example_config example_env ''john'' ''john@email.com'' ''secret'' empty_db) =
     Callback None (Obj
       [(''username'', Str ''john''),
        (''email'', Str ''john@email.com''),
        (''signupToken'', Str ''ef32a95a-d6ee-405a-8e4b-515b235f7c54''),
        (''signupTimestamp'', Date 1389809307000),
        (''signupTokenExpires'', Date 1389812907001),
        (''failedLoginAttempts'', Num 0),
        (''hash'', Str ''$2a$10$vI8aWBnW3fID.ZQ4/zo1G.q1lRps.9cGLcZEiGDMVr5yUP1KUOYTa''),
        (''_id'', ObjectId 1)])"
  by code_simp

section \<open>Update\<close>

text \<open>
  C1 (amended). \<^verbatim>\<open>update\<close> never answers ``not found'', in either source file. For
  every user record that carries an \<^verbatim>\<open>_id\<close>: when the store accepts the write, the
  record is stored in full under that \<^verbatim>\<open>_id\<close>, in the place of the stored record of
  that \<^verbatim>\<open>_id\<close>, or appended when no stored record has it; records with another
  \<^verbatim>\<open>_id\<close> are left as they were; and the value passed to \<^verbatim>\<open>done\<close> is the record
  read back from the store by that \<^verbatim>\<open>_id\<close>, not the write acknowledgement. When the
  store rejects the write, the collection is unchanged; \<^verbatim>\<open>update\<close> of
  \<^verbatim>\<open>src/index.js\<close> passes the store's error to \<^verbatim>\<open>done\<close>, while the older
  \<^verbatim>\<open>update\<close> only logs it and passes what it reads back by that \<^verbatim>\<open>_id\<close>.
\<close>

theorem update_upserts_and_rereads:
  assumes "has_id user"
  shows "(fst (fst (coll_save user c)) = None \<longrightarrow>
            (\<exists>c' d. adapter_update c user = (Callback None (Obj d), c')
               \<and> legacy_update c user = (Callback None (Obj d), c')
               \<and> coll_findOne [(''_id'', get_prop user ''_id'')] c' = Callback None (Obj d)
               \<and> field d ''_id'' = field user ''_id''
               \<and> user \<in> set (documents c')
               \<and> (list_ex (\<lambda>x. field x ''_id'' = field user ''_id'') (documents c) \<longrightarrow>
                    length (documents c') = length (documents c))
               \<and> (\<not> list_ex (\<lambda>x. field x ''_id'' = field user ''_id'') (documents c) \<longrightarrow>
                    documents c' = documents c @ [user])
               \<and> filter (\<lambda>x. field x ''_id'' \<noteq> field user ''_id'') (documents c') =
                   filter (\<lambda>x. field x ''_id'' \<noteq> field user ''_id'') (documents c)))
         \<and> (\<forall>err. fst (fst (coll_save user c)) = Some err \<longrightarrow>
               adapter_update c user = (Callback (Some err) Undefined, c)
               \<and> legacy_update c user = (coll_findOne [(''_id'', get_prop user ''_id'')] c, c))"
proof -
  let ?sel = "\<lambda>x. field x ''_id'' = field user ''_id''"
  let ?c' = "c\<lparr>documents := replace_first ?sel user (documents c)\<rparr>"
  have id: "field user ''_id'' = bson_val (get_prop user ''_id'')"
    using assms by (rule field_of_id)
  have sel: "matches [(''_id'', get_prop user ''_id'')] = ?sel"
    by (simp add: matches_single id)
  have accepted:
    "\<exists>c' d. adapter_update c user = (Callback None (Obj d), c')
        \<and> legacy_update c user = (Callback None (Obj d), c')
        \<and> coll_findOne [(''_id'', get_prop user ''_id'')] c' = Callback None (Obj d)
        \<and> field d ''_id'' = field user ''_id''
        \<and> user \<in> set (documents c')
        \<and> (list_ex ?sel (documents c) \<longrightarrow> length (documents c') = length (documents c))
        \<and> (\<not> list_ex ?sel (documents c) \<longrightarrow> documents c' = documents c @ [user])
        \<and> filter (\<lambda>x. \<not> ?sel x) (documents c') = filter (\<lambda>x. \<not> ?sel x) (documents c)"
    if ok: "fst (fst (coll_save user c)) = None"
  proof -
    have nodup: "\<not> duplicate_key (unique_keys c) (remove_first ?sel (documents c)) user"
      using assms ok by (auto simp: coll_save_def sel Let_def split: if_splits)
    have saved: "coll_save user c = ((None, Some \<lparr>ops = [], result_n = 1\<rparr>), user, ?c')"
      using assms nodup by (simp add: coll_save_def sel Let_def)
    have reread: "coll_findOne [(''_id'', get_prop user ''_id'')] ?c' = Callback None (Obj user)"
      by (simp add: coll_findOne_def sel filter_replace_first)
    have upd: "adapter_update c user = (Callback None (Obj user), ?c')"
      using saved reread by (simp add: adapter_update_def)
    have old: "legacy_update c user = (Callback None (Obj user), ?c')"
      using saved reread by (simp add: legacy_update_def)
    have mem: "user \<in> set (documents ?c')" by (simp add: set_replace_first)
    have repl: "list_ex ?sel (documents c) \<longrightarrow> length (documents ?c') = length (documents c)"
      by (simp add: length_replace_first)
    have ins: "\<not> list_ex ?sel (documents c) \<longrightarrow> documents ?c' = documents c @ [user]"
      by (simp add: replace_first_none)
    have others: "filter (\<lambda>x. \<not> ?sel x) (replace_first ?sel user ds) = filter (\<lambda>x. \<not> ?sel x) ds"
      for ds by (induction ds) auto
    have rest: "filter (\<lambda>x. \<not> ?sel x) (documents ?c') = filter (\<lambda>x. \<not> ?sel x) (documents c)"
      using others [of "documents c"] by simp
    from upd old reread mem repl ins rest show ?thesis by blast
  qed
  have rejected: "adapter_update c user = (Callback (Some err) Undefined, c)
        \<and> legacy_update c user = (coll_findOne [(''_id'', get_prop user ''_id'')] c, c)"
    if no: "fst (fst (coll_save user c)) = Some err" for err
  proof -
    from assms no have "coll_save user c = ((Some err, None), user, c)"
      by (auto simp: coll_save_def Let_def split: if_splits)
    then show ?thesis by (simp add: adapter_update_def legacy_update_def)
  qed
  from accepted rejected show ?thesis by simp
qed

theorem update_upserts_and_rereads_witness:
  "has_id stranger \<and> fst (fst (coll_save stranger empty_db)) = None
   \<and> adapter_update empty_db stranger =
       (Callback None (Obj stranger), empty_db\<lparr>documents := [stranger]\<rparr>)
   \<and> has_id john_later \<and> fst (fst (coll_save john_later john_db)) = None
   \<and> adapter_update john_db john_later =
       (Callback None (Obj john_later), john_db\<lparr>documents := [john_later]\<rparr>)
   \<and> (\<exists>c' d. legacy_update john_db john_later = (Callback None (Obj d), c')
         \<and> coll_findOne [(''_id'', get_prop john_later ''_id'')] c' = Callback None (Obj d)
         \<and> john_later \<in> set (documents c')
         \<and> length (documents c') = length (documents john_db))
   \<and> has_id impostor
   \<and> fst (fst (coll_save impostor john_db)) = Some (MongoError 11000)
   \<and> adapter_update john_db impostor =
       (Callback (Some (MongoError 11000)) Undefined, john_db)
   \<and> legacy_update john_db impostor = (Callback None Null, john_db)"
proof -
  have h1: "has_id stranger" by code_simp
  have h2: "fst (fst (coll_save stranger empty_db)) = None" by code_simp
  have e1: "adapter_update empty_db stranger =
       (Callback None (Obj stranger), empty_db\<lparr>documents := [stranger]\<rparr>)" by code_simp
  have h3: "has_id john_later" by code_simp
  have h4: "fst (fst (coll_save john_later john_db)) = None" by code_simp
  have h5: "list_ex (\<lambda>x. field x ''_id'' = field john_later ''_id'') (documents john_db)"
    by code_simp
  have e2: "adapter_update john_db john_later =
       (Callback None (Obj john_later), john_db\<lparr>documents := [john_later]\<rparr>)" by code_simp
  have h6: "has_id impostor" by code_simp
  have h7: "fst (fst (coll_save impostor john_db)) = Some (MongoError 11000)" by code_simp
  have e3: "coll_findOne [(''_id'', get_prop impostor ''_id'')] john_db = Callback None Null"
    by code_simp
  from update_upserts_and_rereads [OF h3, of john_db] h4 h5
  have w2: "\<exists>c' d. legacy_update john_db john_later = (Callback None (Obj d), c')
         \<and> coll_findOne [(''_id'', get_prop john_later ''_id'')] c' = Callback None (Obj d)
         \<and> john_later \<in> set (documents c')
         \<and> length (documents c') = length (documents john_db)"
    by blast
  from update_upserts_and_rereads [OF h6, of john_db] h7 e3
  have w3: "adapter_update john_db impostor = (Callback (Some (MongoError 11000)) Undefined, john_db)
     \<and> legacy_update john_db impostor = (Callback None Null, john_db)"
    by simp
  from h1 h2 e1 h3 h4 e2 w2 h6 h7 w3 show ?thesis by blast
qed

text \<open>
  C1 as stated fails: on a database without documents, \<^verbatim>\<open>update\<close> of a record whose
  \<^verbatim>\<open>_id\<close> matches nothing succeeds and inserts the record.
\<close>

theorem update_not_found_counterexample:
  "documents empty_db = []
   \<and> adapter_update empty_db stranger =
       (Callback None (Obj stranger), empty_db\<lparr>documents := [stranger]\<rparr>)"
  by code_simp

section \<open>Create\<close>

text \<open>
  C2 (the code departs from the claim). The documented example first: \<^verbatim>\<open>john\<close> is
  created. A second \<^verbatim>\<open>save\<close> with the same email is rejected by the unique index and
  leaves the collection as it was, but the caller gets no error: the callback reads
  \<^verbatim>\<open>result.ops\<close> of a \<^verbatim>\<open>null\<close> result and throws before \<^verbatim>\<open>done\<close> is called.
\<close>

theorem save_duplicate_email_throws:
  "adapter_save example_config example_env ''john'' ''john@email.com'' ''secret'' Undefined empty_db
     = (Callback None (Obj john), john_db)
   \<and> adapter_save example_config example_env ''jane'' ''john@email.com'' ''hunter2'' Undefined john_db
     = (Uncaught ''TypeError: Cannot read property ops of null'', john_db)"
  by code_simp

text \<open>
  C3 (the code departs from the claim). \<^verbatim>\<open>save\<close> reads the clock once for
  \<^verbatim>\<open>signupTimestamp\<close> and a second time for \<^verbatim>\<open>signupTokenExpires\<close>. With the TTL
  \<^verbatim>\<open>"1h"\<close> (3600000 ms) and one millisecond passing between the readings, the two
  fields of the created record differ by 3600001 ms.
\<close>

theorem save_expiry_off_by_clock_delay:
  "ms (tokenExpiration example_config) = Some 3600000
   \<and> moment_delay example_env = 1
   \<and> adapter_save example_config example_env ''john'' ''john@email.com'' ''secret'' Undefined empty_db
     = (Callback None (Obj john), john_db)
   \<and> get_prop john ''signupTimestamp'' = Date 1389809307000
   \<and> get_prop john ''signupTokenExpires'' = Date (1389809307000 + 3600000 + 1)"
  by code_simp

text \<open>
  C4. Whenever \<^verbatim>\<open>save\<close> calls \<^verbatim>\<open>done\<close> without an error, the value it passes is
  the document now stored at the end of the collection; it has the given name and email,
  \<^verbatim>\<open>failedLoginAttempts = 0\<close>, the token that \<^verbatim>\<open>uuid.v4()\<close> issued for this call,
  the first clock reading as \<^verbatim>\<open>signupTimestamp\<close>, a property \<^verbatim>\<open>extra\<close> exactly when
  \<^verbatim>\<open>config.useExtra\<close> is set, and an \<^verbatim>\<open>_id\<close> assigned by the store that no document
  stored before carries.
\<close>

theorem save_returns_persisted_record:
  assumes "adapter_save cfg e name email pw extra c = (Callback None r, c')"
  shows "\<exists>user. r = Obj user
           \<and> documents c' = documents c @ [user]
           \<and> get_prop user ''name'' = Str name
           \<and> get_prop user ''email'' = Str email
           \<and> get_prop user ''failedLoginAttempts'' = Num 0
           \<and> get_prop user ''signupToken'' = Str (uuid_v4 e)
           \<and> get_prop user ''signupTimestamp'' = Date (moment_now e)
           \<and> has_prop user ''extra'' = useExtra cfg
           \<and> get_prop user ''_id'' = createPk c
           \<and> list_all (\<lambda>d. get_prop d ''_id'' \<noteq> get_prop user ''_id'') (documents c)"
proof -
  from assms obtain salt hash base user where
    base: "base = [(''name'', Str name), (''email'', Str email),
                (''signupToken'', Str (uuid_v4 e)),
                (''signupTimestamp'', Date (moment_now e)),
                (''signupTokenExpires'',
                   toDate (moment_add (moment_now e + moment_delay e) (ms (tokenExpiration cfg)))),
                (''failedLoginAttempts'', Num 0)]"
    and user: "user = AList.update ''_id'' (createPk c)
                  (AList.update ''derived_key'' hash
                    (AList.update ''salt'' salt
                      (if useExtra cfg then AList.update ''extra'' extra base else base)))"
    and r: "r = Obj user"
    and c': "c' = c\<lparr>documents := documents c @ [user]\<rparr>"
    by (rule adapter_save_success)
  have id: "get_prop user ''_id'' = createPk c"
    by (simp add: user prop_simps)
  have fresh: "list_all (\<lambda>d. get_prop d ''_id'' \<noteq> get_prop user ''_id'') (documents c)"
    unfolding id by (simp add: list_all_iff createPk_fresh)
  have "get_prop user ''name'' = Str name"
    and "get_prop user ''email'' = Str email"
    and "get_prop user ''failedLoginAttempts'' = Num 0"
    and "get_prop user ''signupToken'' = Str (uuid_v4 e)"
    and "get_prop user ''signupTimestamp'' = Date (moment_now e)"
    and "has_prop user ''extra'' = useExtra cfg"
    by (simp_all add: user base prop_simps)
  with r c' id fresh show ?thesis by simp
qed

theorem save_returns_persisted_record_witness:
  "adapter_save example_config example_env ''john'' ''john@email.com'' ''secret'' Undefined empty_db
     = (Callback None (Obj john), john_db)
   \<and> (\<exists>user. Obj john = Obj user
           \<and> documents john_db = documents empty_db @ [user]
           \<and> get_prop user ''failedLoginAttempts'' = Num 0
           \<and> has_prop user ''extra'' = useExtra example_config
           \<and> get_prop user ''_id'' = createPk empty_db)"
proof -
  have h: "adapter_save example_config example_env ''john'' ''john@email.com'' ''secret'' Undefined
             empty_db = (Callback None (Obj john), john_db)"
    by code_simp
  from save_returns_persisted_record [OF h] h show ?thesis by blast
qed

text \<open>
  C5. When \<^verbatim>\<open>pwd.hash\<close> calls back with an error, \<^verbatim>\<open>save\<close> passes that error to
  \<^verbatim>\<open>done\<close> and the collection is exactly what it was before the call.
\<close>

theorem save_hash_error:
  assumes "pwd_hash e pw = (Some err, salt, hash)"
  shows "adapter_save cfg e name email pw extra c = (Callback (Some err) Undefined, c)"
  using assms by (simp add: adapter_save_def Let_def)

theorem save_hash_error_witness:
  "pwd_hash failing_env ''secret'' = (Some (Error ''entropy''), Undefined, Undefined)
   \<and> adapter_save example_config failing_env ''john'' ''john@email.com'' ''secret'' Undefined
         empty_db
       = (Callback (Some (Error ''entropy'')) Undefined, empty_db)"
proof -
  have h: "pwd_hash failing_env ''secret'' = (Some (Error ''entropy''), Undefined, Undefined)"
    by (simp add: failing_env_def)
  from save_hash_error [OF h] h show ?thesis by blast
qed

section \<open>Remove\<close>

text \<open>
  C7. \<^verbatim>\<open>remove(name)\<close> deletes the records whose \<^verbatim>\<open>name\<close> is the given one and
  calls \<^verbatim>\<open>done(null, true)\<close>; when no record was deleted it calls \<^verbatim>\<open>done\<close> with the
  error \<^verbatim>\<open>lockit - Cannot find user "name"\<close>, which carries the given name, and the
  collection is unchanged.
\<close>

theorem remove_true_or_user_not_found:
  "adapter_remove c name =
     (if list_ex (\<lambda>d. field d ''name'' = Str name) (documents c)
      then (Callback None (Bool True),
            c\<lparr>documents := filter (\<lambda>d. field d ''name'' \<noteq> Str name) (documents c)\<rparr>)
      else (Callback (Some (Error (''lockit - Cannot find user \"'' @ name @ ''\"''))) Undefined, c))"
proof (cases "list_ex (\<lambda>d. field d ''name'' = Str name) (documents c)")
  case True
  then have "filter (\<lambda>d. field d ''name'' = Str name) (documents c) \<noteq> []"
    by (auto simp: list_ex_iff filter_empty_conv)
  with True show ?thesis
    by (simp add: adapter_remove_def coll_remove_def matches_single bson_val_def)
next
  case False
  then have none: "\<forall>d\<in>set (documents c). field d ''name'' \<noteq> Str name"
    by (simp add: list_ex_iff)
  then have "filter (\<lambda>d. field d ''name'' = Str name) (documents c) = []"
    and "filter (\<lambda>d. field d ''name'' \<noteq> Str name) (documents c) = documents c"
    by (simp_all add: filter_empty_conv)
  with False show ?thesis
    by (simp add: adapter_remove_def coll_remove_def matches_single bson_val_def)
qed

theorem remove_true_or_user_not_found_witness:
  "adapter_remove john_db ''ghost-user'' =
     (Callback (Some (Error ''lockit - Cannot find user \"ghost-user\"'')) Undefined, john_db)
   \<and> adapter_remove john_db ''john'' = (Callback None (Bool True), john_db\<lparr>documents := []\<rparr>)"
proof -
  have g: "\<not> list_ex (\<lambda>d. field d ''name'' = Str ''ghost-user'') (documents john_db)" by code_simp
  have j: "list_ex (\<lambda>d. field d ''name'' = Str ''john'') (documents john_db)" by code_simp
  have f: "filter (\<lambda>d. field d ''name'' \<noteq> Str ''john'') (documents john_db) = []" by code_simp
  show ?thesis
    using remove_true_or_user_not_found [of john_db "''ghost-user''"]
      remove_true_or_user_not_found [of john_db "''john''"] g j f by simp
qed

section \<open>Find\<close>

text \<open>
  C8. For a match field among \<^verbatim>\<open>name\<close>, \<^verbatim>\<open>email\<close> and \<^verbatim>\<open>signupToken\<close>: when
  exactly one stored record has the value in that field, \<^verbatim>\<open>find\<close> passes it to
  \<^verbatim>\<open>done\<close>; when no stored record has it, \<^verbatim>\<open>find\<close> calls \<^verbatim>\<open>done(null, null)\<close>, an
  empty result and no error.
\<close>

theorem find_single_or_null:
  assumes "match \<in> {''name'', ''email'', ''signupToken''}"
  shows "(filter (\<lambda>d. field d match = bson_val v) (documents c) = [r]
            \<longrightarrow> adapter_find c match v = Callback None (Obj r))
         \<and> (list_all (\<lambda>d. field d match \<noteq> bson_val w) (documents c)
            \<longrightarrow> adapter_find c match w = Callback None Null)"
proof -
  from assms have np: "match \<noteq> ''__proto__''" by auto
  have a: "filter (\<lambda>d. field d match = bson_val v) (documents c) = [r]
            \<Longrightarrow> adapter_find c match v = Callback None (Obj r)"
    by (simp add: adapter_find_filter [OF np])
  have b: "adapter_find c match w = Callback None Null"
    if "list_all (\<lambda>d. field d match \<noteq> bson_val w) (documents c)"
  proof -
    from that have "filter (\<lambda>d. field d match = bson_val w) (documents c) = []"
      by (simp add: list_all_iff filter_empty_conv)
    then show ?thesis by (simp add: adapter_find_filter [OF np])
  qed
  from a b show ?thesis by blast
qed

theorem find_single_or_null_witness:
  "''signupToken'' \<in> {''name'', ''email'', ''signupToken''}
   \<and> filter (\<lambda>d. field d ''signupToken'' = bson_val (Str ''ef32a95a-d6ee-405a-8e4b-515b235f7c54''))
        (documents john_db) = [john]
   \<and> adapter_find john_db ''signupToken'' (Str ''ef32a95a-d6ee-405a-8e4b-515b235f7c54'')
       = Callback None (Obj john)
   \<and> list_all (\<lambda>d. field d ''signupToken'' \<noteq> bson_val (Str ''no-such-token'')) (documents john_db)
   \<and> adapter_find john_db ''signupToken'' (Str ''no-such-token'') = Callback None Null"
proof -
  have h0: "''signupToken'' \<in> {''name'', ''email'', ''signupToken''}" by simp
  have h1: "filter (\<lambda>d. field d ''signupToken'' = bson_val (Str ''ef32a95a-d6ee-405a-8e4b-515b235f7c54''))
        (documents john_db) = [john]" by code_simp
  have h2: "list_all (\<lambda>d. field d ''signupToken'' \<noteq> bson_val (Str ''no-such-token'')) (documents john_db)"
    by code_simp
  from find_single_or_null [OF h0, of "Str ''ef32a95a-d6ee-405a-8e4b-515b235f7c54''" john_db john "Str ''no-such-token''"]
    h0 h1 h2 show ?thesis by blast
qed




section \<open>Invariants\<close>

text \<open>
  C9 (amended). A record that \<^verbatim>\<open>save\<close> passes to \<^verbatim>\<open>done\<close> has
  \<^verbatim>\<open>signupTokenExpires > signupTimestamp\<close> and \<^verbatim>\<open>failedLoginAttempts >= 0\<close> exactly
  when the second clock reading plus the parsed TTL is later than the first reading and
  is a valid date; for a positive TTL that is: whenever the clock is not set back by the
  TTL or more between the two readings and the expiry stays within the range of a date.
  The operations keep the two properties: when all stored records have them, so have
  all stored records after such a \<^verbatim>\<open>save\<close>, after \<^verbatim>\<open>remove\<close>, and after an
  \<^verbatim>\<open>update\<close> with a record that has them, and so has every record that \<^verbatim>\<open>find\<close> or
  such an \<^verbatim>\<open>update\<close> passes to \<^verbatim>\<open>done\<close>.
\<close>

theorem operations_keep_invariants:
  assumes "ms (tokenExpiration cfg) = Some ttl"
  shows "(\<forall>u. fst (adapter_save cfg e name email pw extra c) = Callback None (Obj u) \<longrightarrow>
            (record_invariant u \<longleftrightarrow>
               0 < moment_delay e + ttl \<and> valid_time (moment_now e + moment_delay e + ttl)))
         \<and> (list_all record_invariant (documents c) \<longrightarrow>
              (0 < moment_delay e + ttl \<and> valid_time (moment_now e + moment_delay e + ttl) \<longrightarrow>
                 list_all record_invariant
                   (documents (snd (adapter_save cfg e name email pw extra c))))
              \<and> (\<forall>u. adapter_find c match query = Callback None (Obj u) \<longrightarrow> record_invariant u)
              \<and> list_all record_invariant (documents (snd (adapter_remove c nm)))
              \<and> (record_invariant user \<longrightarrow>
                   list_all record_invariant (documents (snd (adapter_update c user)))
                   \<and> (\<forall>u. fst (adapter_update c user) = Callback None (Obj u) \<longrightarrow>
                         record_invariant u)))"
proof -
  let ?ok = "0 < moment_delay e + ttl \<and> valid_time (moment_now e + moment_delay e + ttl)"
  obtain r c' where sv: "adapter_save cfg e name email pw extra c = (r, c')"
    by (cases "adapter_save cfg e name email pw extra c") auto
  have created: "record_invariant u \<longleftrightarrow> ?ok" if ru: "r = Callback None (Obj u)" for u
  proof -
    from sv ru have "adapter_save cfg e name email pw extra c = (Callback None (Obj u), c')"
      by simp
    then show ?thesis using assms by (rule record_invariant_created)
  qed
  have kept: "list_all record_invariant (documents c')"
    if inv: "list_all record_invariant (documents c)" and ok: "?ok"
  proof -
    obtain err salt hash where ph: "pwd_hash e pw = (err, salt, hash)"
      by (cases "pwd_hash e pw") auto
    show ?thesis
    proof (cases err)
      case (Some x)
      with ph sv have "c' = c" by (simp add: adapter_save_def Let_def)
      with inv show ?thesis by simp
    next
      case None
      define base where "base = [(''name'', Str name), (''email'', Str email),
                (''signupToken'', Str (uuid_v4 e)),
                (''signupTimestamp'', Date (moment_now e)),
                (''signupTokenExpires'',
                   toDate (moment_add (moment_now e + moment_delay e) (ms (tokenExpiration cfg)))),
                (''failedLoginAttempts'', Num 0)]"
      define new where "new = AList.update ''_id'' (createPk c)
                  (AList.update ''derived_key'' hash
                    (AList.update ''salt'' salt
                      (if useExtra cfg then AList.update ''extra'' extra base else base)))"
      from None ph have ph': "pwd_hash e pw = (None, salt, hash)" by simp
      note out = adapter_save_outcome [OF ph' base_def new_def]
      show ?thesis
      proof (cases "duplicate_key (unique_keys c) (documents c) new")
        case True
        with out sv have "c' = c" by simp
        with inv show ?thesis by simp
      next
        case False
        with out sv have r: "r = Callback None (Obj new)"
          and c': "documents c' = documents c @ [new]" by auto
        from created [OF r] ok have "record_invariant new" by simp
        with inv c' show ?thesis by simp
      qed
    qed
  qed
  have found: "record_invariant u"
    if inv: "list_all record_invariant (documents c)"
      and f: "adapter_find c match query = Callback None (Obj u)" for u
  proof -
    from f have "u \<in> set (documents c)"
      unfolding adapter_find_def Let_def by (rule coll_findOne_mem)
    with inv show ?thesis by (simp add: list_all_iff)
  qed
  have removed: "list_all record_invariant (documents (snd (adapter_remove c nm)))"
    if inv: "list_all record_invariant (documents c)"
  proof -
    have "set (documents (snd (adapter_remove c nm))) \<subseteq> set (documents c)"
      by (auto simp: adapter_remove_def coll_remove_def)
    with inv show ?thesis by (auto simp: list_all_iff)
  qed
  have updated: "list_all record_invariant (documents (snd (adapter_update c user)))"
    if inv: "list_all record_invariant (documents c)" and given: "record_invariant user"
  proof -
    from given have "record_invariant (set_prop user ''_id'' (createPk c))"
      by (simp add: record_invariant_set_id)
    with inv given adapter_update_documents [of c user] show ?thesis
      by (auto simp: list_all_iff)
  qed
  have reread: "record_invariant u"
    if inv: "list_all record_invariant (documents c)" and given: "record_invariant user"
      and f: "fst (adapter_update c user) = Callback None (Obj u)" for u
  proof -
    from f have "u \<in> set (documents (snd (adapter_update c user)))"
      by (rule adapter_update_reply_mem)
    with updated [OF inv given] show ?thesis by (simp add: list_all_iff)
  qed
  from created kept found removed updated reread sv show ?thesis by simp
qed

theorem operations_keep_invariants_witness:
  "ms (tokenExpiration example_config) = Some 3600000
   \<and> fst (adapter_save example_config example_env ''john'' ''john@email.com'' ''secret'' Undefined
            empty_db) = Callback None (Obj john)
   \<and> (0::int) < moment_delay example_env + 3600000
   \<and> valid_time (moment_now example_env + moment_delay example_env + 3600000)
   \<and> record_invariant john
   \<and> list_all record_invariant (documents john_db)
   \<and> list_all record_invariant
        (documents (snd (adapter_save example_config example_env ''jane'' ''jane@email.com''
                           ''hunter2'' Undefined john_db)))
   \<and> record_invariant john_later
   \<and> list_all record_invariant (documents (snd (adapter_update john_db john_later)))
   \<and> list_all record_invariant (documents (snd (adapter_remove john_db ''ghost-user'')))"
proof -
  have h1: "ms (tokenExpiration example_config) = Some 3600000" by code_simp
  have h2: "fst (adapter_save example_config example_env ''john'' ''john@email.com'' ''secret''
                   Undefined empty_db) = Callback None (Obj john)" by code_simp
  have h3: "(0::int) < moment_delay example_env + 3600000" by code_simp
  have h4: "valid_time (moment_now example_env + moment_delay example_env + 3600000)"
    by code_simp
  have h5: "list_all record_invariant (documents john_db)" by code_simp
  have h6: "record_invariant john_later" by code_simp
  from operations_keep_invariants [OF h1, of example_env "''john''" "''john@email.com''"
      "''secret''" Undefined empty_db] h2 h3 h4
  have w1: "record_invariant john" by blast
  from operations_keep_invariants [OF h1, of example_env "''jane''" "''jane@email.com''"
      "''hunter2''" Undefined john_db _ _ "''ghost-user''" john_later] h3 h4 h5 h6
  have w2: "list_all record_invariant
        (documents (snd (adapter_save example_config example_env ''jane'' ''jane@email.com''
                           ''hunter2'' Undefined john_db)))
      \<and> list_all record_invariant (documents (snd (adapter_update john_db john_later)))
      \<and> list_all record_invariant (documents (snd (adapter_remove john_db ''ghost-user'')))"
    by blast
  from h1 h2 h3 h4 w1 h5 w2 h6 show ?thesis by blast
qed

text \<open>
  C9 as stated fails in three ways. \<^verbatim>\<open>update\<close> stores the record it is given, here
  one with \<^verbatim>\<open>failedLoginAttempts = -1\<close> and an expiry before its timestamp, and
  \<^verbatim>\<open>find\<close> returns it. With the positive TTL \<^verbatim>\<open>"300000y"\<close> the expiry of a created
  record is the invalid date, which the store writes as the epoch. And when the clock is
  set back by two hours between its two readings, the record created with the TTL
  \<^verbatim>\<open>"1h"\<close> expires before its timestamp.
\<close>

theorem update_breaks_invariants_counterexample:
  "adapter_update empty_db stranger =
     (Callback None (Obj stranger), empty_db\<lparr>documents := [stranger]\<rparr>)
   \<and> adapter_find (empty_db\<lparr>documents := [stranger]\<rparr>) ''name'' (Str ''jane'') =
       Callback None (Obj stranger)
   \<and> get_prop stranger ''failedLoginAttempts'' = Num (- 1)
   \<and> get_prop stranger ''signupTimestamp'' = Date 2000
   \<and> get_prop stranger ''signupTokenExpires'' = Date 1000
   \<and> \<not> record_invariant stranger
   \<and> ms (tokenExpiration long_ttl_config) = Some 9467280000000000
   \<and> fst (adapter_save long_ttl_config example_env ''john'' ''john@email.com'' ''secret''
            Undefined empty_db) =
       Callback None (Obj (AList.update ''signupTokenExpires'' InvalidDate john))
   \<and> field (AList.update ''signupTokenExpires'' InvalidDate john) ''signupTokenExpires'' = Date 0
   \<and> \<not> record_invariant (AList.update ''signupTokenExpires'' InvalidDate john)
   \<and> ms (tokenExpiration example_config) = Some 3600000
   \<and> fst (adapter_save example_config set_back_env ''john'' ''john@email.com'' ''secret''
            Undefined empty_db) =
       Callback None (Obj (AList.update ''signupTokenExpires'' (Date 1389805707000) john))
   \<and> get_prop (AList.update ''signupTokenExpires'' (Date 1389805707000) john) ''signupTimestamp''
       = Date 1389809307000
   \<and> \<not> record_invariant (AList.update ''signupTokenExpires'' (Date 1389805707000) john)"
  by code_simp

end
